theory Spec2Isabelle
  imports Main "HOL-Library.Sublist"
begin

section \<open>The local static server launcher (scripts/local_server.py)\<close>

text \<open>
  The script is glue over sockets, the file system, a browser and a background thread.
  Its own control flow is sequential, so it is embedded as state-passing functions over
  a record of the effects performed so far, while everything the operating system and
  the Python library decide is read from an environment record \<open>env\<close>.
  Python strings are kept as the bytes of their UTF-8 encoding; the script's Chinese
  message literals appear as byte lists.
\<close>

subsection \<open>Data\<close>

type_synonym path = string

datatype exn =
    RuntimeError string
  | SystemExit string
  | OverflowError
  | FileNotFoundError
  | NotADirectoryError
  | PermissionError
  | OSError int
  | ValueError

datatype node = File | Directory

text \<open>What one pass of the final liveness loop meets (source lines 86--88).\<close>

datatype loop_event =
    Slept        \<comment> \<open>\<open>thread.is_alive()\<close> was true and \<open>time.sleep(0.5)\<close> completed\<close>
  | ThreadDead   \<comment> \<open>\<open>thread.is_alive()\<close> was false\<close>
  | Interrupt    \<comment> \<open>\<open>KeyboardInterrupt\<close> was raised inside the \<open>try\<close> block\<close>

text \<open>The handler class built by \<open>build_handler\<close> differs from the library's only in
  the directory it passes on and in its log format.\<close>

record handler =
  directory :: string

datatype event =
    Chdir path                \<comment> \<open>\<open>os.chdir\<close> succeeded\<close>
  | Probe int                 \<comment> \<open>a fresh socket did \<open>connect_ex\<close> to 127.0.0.1 on the port and was closed\<close>
  | Sleep nat                 \<comment> \<open>\<open>time.sleep\<close>, in milliseconds\<close>
  | ServerCreate int handler  \<comment> \<open>\<open>ThreadingHTTPServer\<close> created, bound and listening\<close>
  | Print string              \<comment> \<open>one \<open>print\<close> call, without the final newline\<close>
  | ThreadStart               \<comment> \<open>the daemon thread running \<open>serve_forever\<close> was started\<close>
  | BrowserOpen string        \<comment> \<open>\<open>webbrowser.open(url, new=2, autoraise=True)\<close> was called\<close>
  | ServerShutdown            \<comment> \<open>\<open>server.shutdown()\<close>\<close>
  | ServerClose               \<comment> \<open>\<open>server.server_close()\<close>\<close>
  | ThreadJoin nat            \<comment> \<open>\<open>thread.join(timeout)\<close>, in milliseconds\<close>

text \<open>
  The environment. \<open>connect_errno e k p\<close> is the code that the \<open>k\<close>-th TCP connect of
  the run (counted from 0) returns when it goes to port \<open>p\<close>: the answer may change from
  one attempt to the next, as the server comes up or other processes come and go.
\<close>

record env =
  resolve :: "path \<Rightarrow> path"
  node_at :: "path \<Rightarrow> node option"
  chdir_denied :: "path \<Rightarrow> bool"
  connect_errno :: "nat \<Rightarrow> int \<Rightarrow> int"
  bind_errno :: "int \<Rightarrow> int"
  browser_result :: "string \<Rightarrow> exn + bool"
  wait_event :: "nat \<Rightarrow> loop_event"

record st =
  calls :: nat
  trace :: "event list"

definition init_st :: st where
  "init_st = \<lparr>calls = 0, trace = []\<rparr>"

definition emit :: "event \<Rightarrow> st \<Rightarrow> st" where
  "emit ev s = s\<lparr>trace := trace s @ [ev]\<rparr>"

subsection \<open>Strings\<close>

text \<open>Python's \<open>str\<close> of an integer: decimal digits, with a minus sign when negative.\<close>

definition digit_char :: "nat \<Rightarrow> char" where
  "digit_char d = char_of (48 + d)"

fun str_nat :: "nat \<Rightarrow> string" where
  "str_nat n = (if n < 10 then [digit_char n] else str_nat (n div 10) @ [digit_char (n mod 10)])"

declare str_nat.simps [simp del]

definition str_int :: "int \<Rightarrow> string" where
  "str_int i = (if i < 0 then CHR ''-'' # str_nat (nat (- i)) else str_nat (nat i))"

text \<open>\<open>s.lstrip('/')\<close>: drop characters from the left while they are slashes.\<close>

fun lstrip_slash :: "string \<Rightarrow> string" where
  "lstrip_slash [] = []"
| "lstrip_slash (c # cs) = (if c = CHR ''/'' then lstrip_slash cs else c # cs)"

subsection \<open>Message literals\<close>

definition msg_no_port :: "int \<Rightarrow> string" where
  "msg_no_port start_port =
     [CHR 0xE5, CHR 0x9C, CHR 0xA8, CHR 0x20] @ str_int start_port @
     [CHR 0x20, CHR 0xE9, CHR 0x99, CHR 0x84, CHR 0xE8, CHR 0xBF, CHR 0x91, CHR 0xE6,
      CHR 0x89, CHR 0xBE, CHR 0xE4, CHR 0xB8, CHR 0x8D, CHR 0xE5, CHR 0x88, CHR 0xB0,
      CHR 0xE5, CHR 0x8F, CHR 0xAF, CHR 0xE7, CHR 0x94, CHR 0xA8, CHR 0xE7, CHR 0xAB,
      CHR 0xAF, CHR 0xE5, CHR 0x8F, CHR 0xA3]"

definition msg_timeout :: string where
  "msg_timeout =
     [CHR 0xE6, CHR 0x9C, CHR 0x8D, CHR 0xE5, CHR 0x8A, CHR 0xA1, CHR 0xE5, CHR 0x99,
      CHR 0xA8, CHR 0xE5, CHR 0x90, CHR 0xAF, CHR 0xE5, CHR 0x8A, CHR 0xA8, CHR 0xE8,
      CHR 0xB6, CHR 0x85, CHR 0xE6, CHR 0x97, CHR 0xB6]"

definition msg_no_root :: string where
  "msg_no_root =
     [CHR 0xE7, CHR 0x9B, CHR 0xAE, CHR 0xE5, CHR 0xBD, CHR 0x95, CHR 0xE4, CHR 0xB8,
      CHR 0x8D, CHR 0xE5, CHR 0xAD, CHR 0x98, CHR 0xE5, CHR 0x9C, CHR 0xA8, CHR 0xEF,
      CHR 0xBC, CHR 0x9A]"

definition msg_static_dir :: string where
  "msg_static_dir =
     [CHR 0xE9, CHR 0x9D, CHR 0x99, CHR 0xE6, CHR 0x80, CHR 0x81, CHR 0xE7, CHR 0x9B,
      CHR 0xAE, CHR 0xE5, CHR 0xBD, CHR 0x95, CHR 0xEF, CHR 0xBC, CHR 0x9A]"

definition msg_access :: string where
  "msg_access =
     [CHR 0xE8, CHR 0xAE, CHR 0xBF, CHR 0xE9, CHR 0x97, CHR 0xAE, CHR 0xE5, CHR 0x9C,
      CHR 0xB0, CHR 0xE5, CHR 0x9D, CHR 0x80, CHR 0xEF, CHR 0xBC, CHR 0x9A]"

definition msg_howto_close :: string where
  "msg_howto_close =
     [CHR 0xE5, CHR 0x85, CHR 0xB3, CHR 0xE9, CHR 0x97, CHR 0xAD, CHR 0xE6, CHR 0x96,
      CHR 0xB9, CHR 0xE5, CHR 0xBC, CHR 0x8F, CHR 0xEF, CHR 0xBC, CHR 0x9A, CHR 0xE5,
      CHR 0x9B, CHR 0x9E, CHR 0xE5, CHR 0x88, CHR 0xB0, CHR 0xE8, CHR 0xAF, CHR 0xA5,
      CHR 0xE7, CHR 0xAA, CHR 0x97, CHR 0xE5, CHR 0x8F, CHR 0xA3, CHR 0xE6, CHR 0x8C,
      CHR 0x89, CHR 0x20, CHR 0x43, CHR 0x74, CHR 0x72, CHR 0x6C, CHR 0x2B, CHR 0x43,
      CHR 0x20, CHR 0xE5, CHR 0x8D, CHR 0xB3, CHR 0xE5, CHR 0x8F, CHR 0xAF]"

text \<open>Line 83: "the browser has been asked to open; if that did not work, copy the
  access address by hand".\<close>

definition msg_browser :: string where
  "msg_browser =
     [CHR 0xE6, CHR 0xB5, CHR 0x8F, CHR 0xE8, CHR 0xA7, CHR 0x88, CHR 0xE5, CHR 0x99,
      CHR 0xA8, CHR 0xE5, CHR 0xB7, CHR 0xB2, CHR 0xE5, CHR 0xB0, CHR 0x9D, CHR 0xE8,
      CHR 0xAF, CHR 0x95, CHR 0xE8, CHR 0x87, CHR 0xAA, CHR 0xE5, CHR 0x8A, CHR 0xA8,
      CHR 0xE6, CHR 0x89, CHR 0x93, CHR 0xE5, CHR 0xBC, CHR 0x80, CHR 0xEF, CHR 0xBC,
      CHR 0x8C, CHR 0xE8, CHR 0x8B, CHR 0xA5, CHR 0xE6, CHR 0x9C, CHR 0xAA, CHR 0xE6,
      CHR 0x88, CHR 0x90, CHR 0xE5, CHR 0x8A, CHR 0x9F, CHR 0xE5, CHR 0x8F, CHR 0xAF,
      CHR 0xE6, CHR 0x89, CHR 0x8B, CHR 0xE5, CHR 0x8A, CHR 0xA8, CHR 0xE5, CHR 0xA4,
      CHR 0x8D, CHR 0xE5, CHR 0x88, CHR 0xB6, CHR 0xE8, CHR 0xAE, CHR 0xBF, CHR 0xE9,
      CHR 0x97, CHR 0xAE, CHR 0xE5, CHR 0x9C, CHR 0xB0, CHR 0xE5, CHR 0x9D, CHR 0x80,
      CHR 0xE3, CHR 0x80, CHR 0x82]"

definition msg_interrupt :: string where
  "msg_interrupt =
     [CHR 0x0A, CHR 0xE6, CHR 0x94, CHR 0xB6, CHR 0xE5, CHR 0x88, CHR 0xB0, CHR 0xE9,
      CHR 0x80, CHR 0x80, CHR 0xE5, CHR 0x87, CHR 0xBA, CHR 0xE6, CHR 0x8C, CHR 0x87,
      CHR 0xE4, CHR 0xBB, CHR 0xA4, CHR 0xEF, CHR 0xBC, CHR 0x8C, CHR 0xE6, CHR 0xAD,
      CHR 0xA3, CHR 0xE5, CHR 0x9C, CHR 0xA8, CHR 0xE5, CHR 0x85, CHR 0xB3, CHR 0xE9,
      CHR 0x97, CHR 0xAD, CHR 0xE6, CHR 0x9C, CHR 0x8D, CHR 0xE5, CHR 0x8A, CHR 0xA1,
      CHR 0xE5, CHR 0x99, CHR 0xA8, CHR 0x2E, CHR 0x2E, CHR 0x2E]"

definition msg_bye :: string where
  "msg_bye =
     [CHR 0xE6, CHR 0x9C, CHR 0x8D, CHR 0xE5, CHR 0x8A, CHR 0xA1, CHR 0xE5, CHR 0x99,
      CHR 0xA8, CHR 0xE5, CHR 0xB7, CHR 0xB2, CHR 0xE5, CHR 0x85, CHR 0xB3, CHR 0xE9,
      CHR 0x97, CHR 0xAD, CHR 0xEF, CHR 0xBC, CHR 0x8C, CHR 0xE5, CHR 0x86, CHR 0x8D,
      CHR 0xE8, CHR 0xA7, CHR 0x81, CHR 0xEF, CHR 0xBC, CHR 0x81]"

subsection \<open>Probing a port\<close>

text \<open>
  \<open>sock.connect_ex(("127.0.0.1", port))\<close> on a fresh socket inside
  \<open>with contextlib.closing(...)\<close>. The library refuses a port outside 0..65535 with
  \<open>OverflowError\<close> before anything is sent; otherwise the call returns the connect's
  error code, 0 for an accepted connection.
\<close>

definition connect_result :: "env \<Rightarrow> nat \<Rightarrow> int \<Rightarrow> exn + int" where
  "connect_result e k port =
     (if port < 0 \<or> 65535 < port then Inl OverflowError else Inr (connect_errno e k port))"

text \<open>A connect attempt succeeds when it returns 0 and fails when it returns any other
  code; an attempt that raises does neither.\<close>

definition connect_succeeds :: "env \<Rightarrow> nat \<Rightarrow> int \<Rightarrow> bool" where
  "connect_succeeds e k port = (connect_result e k port = Inr 0)"

definition connect_fails :: "env \<Rightarrow> nat \<Rightarrow> int \<Rightarrow> bool" where
  "connect_fails e k port = (case connect_result e k port of Inl x \<Rightarrow> False | Inr rc \<Rightarrow> rc \<noteq> 0)"

definition connect_ex :: "env \<Rightarrow> int \<Rightarrow> st \<Rightarrow> (exn + int) \<times> st" where
  "connect_ex e port s =
     (case connect_result e (calls s) port of
        Inl x \<Rightarrow> (Inl x, s)
      | Inr rc \<Rightarrow> (Inr rc, s\<lparr>calls := Suc (calls s), trace := trace s @ [Probe port]\<rparr>))"

text \<open>Lines 19--25. The \<open>for\<close> loop runs over the ports of
  \<open>range(start_port, start_port + tries)\<close> that are still to be probed.\<close>

fun find_available_port_loop :: "env \<Rightarrow> int \<Rightarrow> int list \<Rightarrow> st \<Rightarrow> (exn + int) \<times> st" where
  "find_available_port_loop e start_port [] s = (Inl (RuntimeError (msg_no_port start_port)), s)"
| "find_available_port_loop e start_port (port # rest) s =
     (case connect_ex e port s of
        (Inl x, s') \<Rightarrow> (Inl x, s')
      | (Inr rc, s') \<Rightarrow>
          if rc \<noteq> 0 then (Inr port, s') else find_available_port_loop e start_port rest s')"

definition find_available_port :: "env \<Rightarrow> int \<Rightarrow> int \<Rightarrow> st \<Rightarrow> (exn + int) \<times> st" where
  "find_available_port e start_port tries s =
     find_available_port_loop e start_port [start_port..start_port + tries - 1] s"

text \<open>Lines 28--34. The loop counter is the number of passes still allowed; the delay
  is in milliseconds.\<close>

fun wait_until_listening_loop :: "env \<Rightarrow> int \<Rightarrow> nat \<Rightarrow> nat \<Rightarrow> st \<Rightarrow> (exn + unit) \<times> st" where
  "wait_until_listening_loop e port delay 0 s = (Inl (RuntimeError msg_timeout), s)"
| "wait_until_listening_loop e port delay (Suc n) s =
     (case connect_ex e port s of
        (Inl x, s') \<Rightarrow> (Inl x, s')
      | (Inr rc, s') \<Rightarrow>
          if rc = 0 then (Inr (), s')
          else wait_until_listening_loop e port delay n (emit (Sleep delay) s'))"

definition wait_until_listening :: "env \<Rightarrow> int \<Rightarrow> int \<Rightarrow> nat \<Rightarrow> st \<Rightarrow> (exn + unit) \<times> st" where
  "wait_until_listening e port retries delay s =
     wait_until_listening_loop e port delay (nat retries) s"

subsection \<open>The handler and the library calls of the launcher\<close>

text \<open>Lines 37--45: the class passes \<open>directory=str(root)\<close> to the library's
  \<open>SimpleHTTPRequestHandler\<close>; how a request path is mapped to a file is the library's.\<close>

definition build_handler :: "path \<Rightarrow> handler" where
  "build_handler root = \<lparr>directory = root\<rparr>"

text \<open>\<open>Path.exists()\<close> asks only whether the path names anything at all.\<close>

definition path_exists :: "env \<Rightarrow> path \<Rightarrow> bool" where
  "path_exists e p = (node_at e p \<noteq> None)"

text \<open>\<open>os.chdir\<close> raises an \<open>OSError\<close> subclass unless the path is a directory
  the process may enter.\<close>

definition chdir :: "env \<Rightarrow> path \<Rightarrow> st \<Rightarrow> (exn + unit) \<times> st" where
  "chdir e p s =
     (case node_at e p of
        None \<Rightarrow> (Inl FileNotFoundError, s)
      | Some File \<Rightarrow> (Inl NotADirectoryError, s)
      | Some Directory \<Rightarrow>
          if chdir_denied e p then (Inl PermissionError, s) else (Inr (), emit (Chdir p) s))"

text \<open>\<open>http.server.ThreadingHTTPServer(("127.0.0.1", port), handler)\<close>: the constructor
  creates the socket, binds it and listens; when binding fails it releases the socket
  itself and raises.\<close>

definition create_server :: "env \<Rightarrow> int \<Rightarrow> handler \<Rightarrow> st \<Rightarrow> (exn + unit) \<times> st" where
  "create_server e port h s =
     (if port < 0 \<or> 65535 < port then (Inl OverflowError, s)
      else if bind_errno e port \<noteq> 0 then (Inl (OSError (bind_errno e port)), s)
      else (Inr (), emit (ServerCreate port h) s))"

text \<open>
  \<open>webbrowser.open\<close> answers whether a browser was launched, and it can also raise: a
  \<open>BROWSER\<close> command line that does not parse gives \<open>ValueError\<close>, and starting the
  browser's process can give \<open>OSError\<close>. What happens for a URL is the environment's
  \<open>browser_result\<close>.
\<close>

definition webbrowser_open :: "env \<Rightarrow> string \<Rightarrow> st \<Rightarrow> (exn + bool) \<times> st" where
  "webbrowser_open e url s = (browser_result e url, emit (BrowserOpen url) s)"

subsection \<open>The launcher\<close>

record config =
  arg_root :: path
  arg_entry :: string
  arg_port :: int

datatype loop_end = StillWaiting | LoopDone | Interrupted

datatype outcome =
    Returned       \<comment> \<open>\<open>main\<close> returned\<close>
  | Raised exn     \<comment> \<open>an exception left \<open>main\<close>\<close>
  | Serving        \<comment> \<open>still inside the liveness loop when the observation ends\<close>

text \<open>The interpreter's exit status: 0 when \<open>main\<close> returns, 1 when an exception
  leaves it (a \<open>SystemExit\<close> carrying a string prints the string on standard error, any
  other exception prints a traceback there).\<close>

definition exit_status :: "outcome \<Rightarrow> int option" where
  "exit_status out = (case out of Returned \<Rightarrow> Some 0 | Raised x \<Rightarrow> Some 1 | Serving \<Rightarrow> None)"

text \<open>Lines 86--87, \<open>while thread.is_alive(): time.sleep(0.5)\<close>. The loop runs for as
  long as the thread lives and nobody interrupts, so it is observed for at most \<open>fuel\<close>
  passes; \<open>i\<close> counts the passes made.\<close>

fun liveness_loop :: "env \<Rightarrow> nat \<Rightarrow> nat \<Rightarrow> st \<Rightarrow> loop_end \<times> st" where
  "liveness_loop e 0 i s = (StillWaiting, s)"
| "liveness_loop e (Suc fuel) i s =
     (case wait_event e i of
        ThreadDead \<Rightarrow> (LoopDone, s)
      | Interrupt \<Rightarrow> (Interrupted, s)
      | Slept \<Rightarrow> liveness_loop e fuel (Suc i) (emit (Sleep 500) s))"

text \<open>Lines 72--76.\<close>

definition print_banner :: "path \<Rightarrow> string \<Rightarrow> st \<Rightarrow> st" where
  "print_banner web_root url s =
     emit (Print (replicate 60 CHR ''-''))
       (emit (Print msg_howto_close)
         (emit (Print (msg_access @ url))
           (emit (Print (msg_static_dir @ web_root))
             (emit (Print (replicate 60 CHR ''-'')) s))))"

text \<open>Lines 90--94, the \<open>finally\<close> block.\<close>

definition main_finally :: "st \<Rightarrow> st" where
  "main_finally s =
     emit (Print msg_bye) (emit (ThreadJoin 2000) (emit ServerClose (emit ServerShutdown s)))"

text \<open>Lines 60--81 of \<open>main\<close>, from the resolved root to the end of the readiness wait,
  on the parsed arguments. It yields the selected port and the URL.\<close>

definition main_startup :: "env \<Rightarrow> config \<Rightarrow> (exn + int \<times> string) \<times> st" where
  "main_startup e args =
     (let web_root = resolve e (arg_root args) in
      if \<not> path_exists e web_root then (Inl (SystemExit (msg_no_root @ web_root)), init_st)
      else
        case chdir e web_root init_st of
          (Inl x, s1) \<Rightarrow> (Inl x, s1)
        | (Inr _, s1) \<Rightarrow>
           (case find_available_port e (arg_port args) 25 s1 of
              (Inl x, s2) \<Rightarrow> (Inl x, s2)
            | (Inr port, s2) \<Rightarrow>
               (let url = ''http://localhost:'' @ str_int port @ ''/'' @ lstrip_slash (arg_entry args);
                    handler = build_handler web_root
                in case create_server e port handler s2 of
                     (Inl x, s3) \<Rightarrow> (Inl x, s3)
                   | (Inr _, s3) \<Rightarrow>
                      (let s4 = print_banner web_root url s3;
                           s5 = emit ThreadStart s4
                       in case wait_until_listening e port 40 150 s5 of
                            (Inl x, s6) \<Rightarrow> (Inl x, s6)
                          | (Inr _, s6) \<Rightarrow> (Inr (port, url), s6)))))"

text \<open>\<open>main\<close>: the startup, then lines 82--94.\<close>

definition main :: "env \<Rightarrow> config \<Rightarrow> nat \<Rightarrow> outcome \<times> st" where
  "main e args fuel =
     (case main_startup e args of
        (Inl x, s) \<Rightarrow> (Raised x, s)
      | (Inr (port, url), s) \<Rightarrow>
         (case webbrowser_open e url s of
            (Inl x, s7) \<Rightarrow> (Raised x, s7)
          | (Inr opened, s7) \<Rightarrow>
             (let s8 = emit (Print msg_browser) s7
              in case liveness_loop e fuel 0 s8 of
                   (StillWaiting, s9) \<Rightarrow> (Serving, s9)
                 | (LoopDone, s9) \<Rightarrow> (Returned, main_finally s9)
                 | (Interrupted, s9) \<Rightarrow>
                     (Returned, main_finally (emit (Print msg_interrupt) s9)))))"

subsection \<open>Example environments\<close>

definition site_args :: config where
  "site_args = \<lparr>arg_root = ''/srv/site'', arg_entry = ''index.html'', arg_port = 8000\<rparr>"

text \<open>Ports below \<open>q\<close> are taken, the others are free until the launcher's own
  server answers: the connects numbered from \<open>up\<close> on succeed everywhere.\<close>

definition env_ports :: "int \<Rightarrow> nat \<Rightarrow> (nat \<Rightarrow> loop_event) \<Rightarrow> env" where
  "env_ports q up ev =
     \<lparr>resolve = (\<lambda>p. p),
      node_at = (\<lambda>p. if p = ''/srv/site'' then Some Directory
                      else if p = ''/srv/site/index.html'' then Some File else None),
      chdir_denied = (\<lambda>p. False),
      connect_errno = (\<lambda>k p. if p < q \<or> up \<le> k then 0 else 111),
      bind_errno = (\<lambda>p. 0),
      browser_result = (\<lambda>u. Inr False),
      wait_event = ev\<rparr>"

text \<open>Every port already has a listener.\<close>

definition env_all_busy :: env where
  "env_all_busy = env_ports 65536 0 (\<lambda>i. Slept)"

text \<open>Port 8000 and 8001 are taken, 8002 is free, and the new server answers the
  third readiness probe; the user presses Ctrl+C during the third pass of the loop.\<close>

definition env_typical :: env where
  "env_typical = env_ports 8002 5 (\<lambda>i. if i < 2 then Slept else Interrupt)"

text \<open>The same, with a browser configuration that makes \<open>webbrowser.open\<close> raise.\<close>

definition env_browser_raises :: env where
  "env_browser_raises = env_typical\<lparr>browser_result := \<lambda>u. Inl ValueError\<rparr>"

text \<open>Port 8000 is free and stays unreachable after the server was bound.\<close>

definition env_never_ready :: env where
  "env_never_ready = env_ports 8000 1000 (\<lambda>i. Slept)"

text \<open>The same site asked for under a root that does not exist, and under a root that
  is a regular file.\<close>

definition missing_root_args :: config where
  "missing_root_args = site_args\<lparr>arg_root := ''/srv/nothing''\<rparr>"

definition file_root_args :: config where
  "file_root_args = site_args\<lparr>arg_root := ''/srv/site/index.html''\<rparr>"

text \<open>The same site with an entry page written with leading slashes.\<close>

definition slash_entry_args :: config where
  "slash_entry_args = site_args\<lparr>arg_entry := ''//docs/a.html''\<rparr>"

text \<open>Where the run in \<open>env_typical\<close> stands when the readiness wait has returned.\<close>

definition typical_started :: "string \<Rightarrow> st" where
  "typical_started url =
     \<lparr>calls = 6,
      trace = [Chdir ''/srv/site'', Probe 8000, Probe 8001, Probe 8002,
               ServerCreate 8002 \<lparr>directory = ''/srv/site''\<rparr>,
               Print (replicate 60 CHR ''-''),
               Print (msg_static_dir @ ''/srv/site''),
               Print (msg_access @ url),
               Print msg_howto_close,
               Print (replicate 60 CHR ''-''),
               ThreadStart,
               Probe 8002, Sleep 150, Probe 8002, Sleep 150, Probe 8002]\<rparr>"

text \<open>Where the run in \<open>env_never_ready\<close> stands when the readiness wait gives up.\<close>

definition never_ready_stalled :: st where
  "never_ready_stalled =
     \<lparr>calls = 41,
      trace = [Chdir ''/srv/site'', Probe 8000,
               ServerCreate 8000 \<lparr>directory = ''/srv/site''\<rparr>,
               Print (replicate 60 CHR ''-''),
               Print (msg_static_dir @ ''/srv/site''),
               Print (msg_access @ ''http://localhost:8000/index.html''),
               Print msg_howto_close,
               Print (replicate 60 CHR ''-''),
               ThreadStart]
              @ concat (replicate 40 [Probe 8000, Sleep 150])\<rparr>"

text \<open>The effects that belong to the startup: none of them stops or closes the server,
  joins the thread or opens the browser.\<close>

definition startup_event :: "event \<Rightarrow> bool" where
  "startup_event ev =
     (case ev of
        BrowserOpen u \<Rightarrow> False
      | ServerShutdown \<Rightarrow> False
      | ServerClose \<Rightarrow> False
      | ThreadJoin t \<Rightarrow> False
      | _ \<Rightarrow> True)"

section \<open>Properties\<close>

subsection \<open>Strings\<close>

lemma digit_char_values:
  "digit_char 0 = CHR ''0''" "digit_char 1 = CHR ''1''" "digit_char 2 = CHR ''2''"
  "digit_char 3 = CHR ''3''" "digit_char 4 = CHR ''4''" "digit_char 5 = CHR ''5''"
  "digit_char 6 = CHR ''6''" "digit_char 7 = CHR ''7''" "digit_char 8 = CHR ''8''"
  "digit_char 9 = CHR ''9''"
  unfolding digit_char_def by code_simp+

lemma str_int_8002: "str_int 8002 = ''8002''"
  by (simp add: str_int_def str_nat.simps digit_char_values)

lemma str_int_8000: "str_int 8000 = ''8000''"
  by (simp add: str_int_def str_nat.simps digit_char_values)

lemma lstrip_slash_dropWhile: "lstrip_slash cs = dropWhile (\<lambda>c. c = CHR ''/'') cs"
  by (induction cs) simp_all

subsection \<open>Port selection\<close>

lemma connect_fails_iff:
  "connect_fails e k port \<longleftrightarrow> (\<exists>rc. rc \<noteq> 0 \<and> connect_result e k port = Inr rc)"
  by (cases "connect_result e k port") (simp_all add: connect_fails_def)

lemma fap_loop_free:
  "i < length ports \<Longrightarrow>
   \<forall>j<i. connect_result e (calls s + j) (ports ! j) = Inr 0 \<Longrightarrow>
   connect_result e (calls s + i) (ports ! i) = Inr rc \<Longrightarrow> rc \<noteq> 0 \<Longrightarrow>
   find_available_port_loop e sp ports s =
     (Inr (ports ! i), s\<lparr>calls := calls s + Suc i, trace := trace s @ map Probe (take (Suc i) ports)\<rparr>)"
proof (induction ports arbitrary: s i)
  case Nil
  then show ?case by simp
next
  case (Cons p ps)
  show ?case
  proof (cases i)
    case 0
    with Cons.prems show ?thesis by (simp add: connect_ex_def)
  next
    case (Suc k)
    let ?s' = "s\<lparr>calls := Suc (calls s), trace := trace s @ [Probe p]\<rparr>"
    from Cons.prems Suc have p0: "connect_result e (calls s) p = Inr 0" by force
    have k: "k < length ps" using Cons.prems Suc by simp
    have a: "\<forall>j<k. connect_result e (calls ?s' + j) (ps ! j) = Inr 0"
    proof (intro allI impI)
      fix j assume "j < k"
      then have "Suc j < i" using Suc by simp
      with Cons.prems(2) have "connect_result e (calls s + Suc j) ((p # ps) ! Suc j) = Inr 0" by blast
      then show "connect_result e (calls ?s' + j) (ps ! j) = Inr 0" by simp
    qed
    have b: "connect_result e (calls ?s' + k) (ps ! k) = Inr rc"
      using Cons.prems(3) Suc by simp
    from Cons.IH [OF k a b Cons.prems(4)] p0 Suc show ?thesis
      by (simp add: connect_ex_def)
  qed
qed

lemma fap_loop_busy:
  "\<forall>j<length ports. connect_result e (calls s + j) (ports ! j) = Inr 0 \<Longrightarrow>
   find_available_port_loop e sp ports s =
     (Inl (RuntimeError (msg_no_port sp)), s\<lparr>calls := calls s + length ports, trace := trace s @ map Probe ports\<rparr>)"
proof (induction ports arbitrary: s)
  case Nil
  then show ?case by simp
next
  case (Cons p ps)
  let ?s' = "s\<lparr>calls := Suc (calls s), trace := trace s @ [Probe p]\<rparr>"
  from Cons.prems have p0: "connect_result e (calls s) p = Inr 0" by force
  have a: "\<forall>j<length ps. connect_result e (calls ?s' + j) (ps ! j) = Inr 0"
  proof (intro allI impI)
    fix j assume "j < length ps"
    then have "Suc j < length (p # ps)" by simp
    with Cons.prems have "connect_result e (calls s + Suc j) ((p # ps) ! Suc j) = Inr 0" by blast
    then show "connect_result e (calls ?s' + j) (ps ! j) = Inr 0" by simp
  qed
  from Cons.IH [OF a] p0 show ?case by (simp add: connect_ex_def)
qed

lemma fap_loop_Inr:
  "find_available_port_loop e sp ports s = (Inr q, s') \<Longrightarrow>
   \<exists>i<length ports. q = ports ! i \<and>
     (\<forall>j<i. connect_result e (calls s + j) (ports ! j) = Inr 0) \<and>
     (\<exists>rc. rc \<noteq> 0 \<and> connect_result e (calls s + i) (ports ! i) = Inr rc)"
proof (induction ports arbitrary: s)
  case Nil
  then show ?case by simp
next
  case (Cons p ps)
  let ?s' = "s\<lparr>calls := Suc (calls s), trace := trace s @ [Probe p]\<rparr>"
  from Cons.prems obtain rc where rc: "connect_result e (calls s) p = Inr rc"
    by (cases "connect_result e (calls s) p") (auto simp: connect_ex_def)
  show ?case
  proof (cases "rc = 0")
    case False
    with rc Cons.prems have "q = p" by (simp add: connect_ex_def)
    with rc False have "q = (p # ps) ! 0 \<and>
        (\<forall>j<0. connect_result e (calls s + j) ((p # ps) ! j) = Inr 0) \<and>
        (\<exists>rc. rc \<noteq> 0 \<and> connect_result e (calls s + 0) ((p # ps) ! 0) = Inr rc)" by simp
    then show ?thesis by (intro exI [of _ 0]) simp
  next
    case True
    with rc Cons.prems have "find_available_port_loop e sp ps ?s' = (Inr q, s')"
      by (simp add: connect_ex_def)
    from Cons.IH [OF this] obtain i where i: "i < length ps" "q = ps ! i"
      "\<forall>j<i. connect_result e (calls s + Suc j) (ps ! j) = Inr 0"
      "\<exists>rc. rc \<noteq> 0 \<and> connect_result e (calls s + Suc i) (ps ! i) = Inr rc" by auto
    have "\<forall>j<Suc i. connect_result e (calls s + j) ((p # ps) ! j) = Inr 0"
    proof (intro allI impI)
      fix j assume j: "j < Suc i"
      show "connect_result e (calls s + j) ((p # ps) ! j) = Inr 0"
      proof (cases j)
        case 0
        with rc True show ?thesis by simp
      next
        case (Suc k)
        with j i(3) show ?thesis by simp
      qed
    qed
    with i show ?thesis by (intro exI [of _ "Suc i"]) simp
  qed
qed

lemma fap_loop_RuntimeError:
  "find_available_port_loop e sp ports s = (Inl (RuntimeError m), s') \<Longrightarrow>
   \<forall>j<length ports. connect_result e (calls s + j) (ports ! j) = Inr 0"
proof (induction ports arbitrary: s)
  case Nil
  then show ?case by simp
next
  case (Cons p ps)
  let ?s' = "s\<lparr>calls := Suc (calls s), trace := trace s @ [Probe p]\<rparr>"
  have p0: "connect_result e (calls s) p = Inr 0"
    using Cons.prems
    by (auto simp: connect_ex_def connect_result_def split: if_splits)
  with Cons.prems have "find_available_port_loop e sp ps ?s' = (Inl (RuntimeError m), s')"
    by (simp add: connect_ex_def)
  from Cons.IH [OF this] have ih: "\<forall>j<length ps. connect_result e (calls s + Suc j) (ps ! j) = Inr 0"
    by simp
  show ?case
  proof (intro allI impI)
    fix j assume j: "j < length (p # ps)"
    show "connect_result e (calls s + j) ((p # ps) ! j) = Inr 0"
    proof (cases j)
      case 0
      with p0 show ?thesis by simp
    next
      case (Suc k)
      with j ih show ?thesis by simp
    qed
  qed
qed

lemma fap_loop_RuntimeError_msg:
  "find_available_port_loop e sp ports s = (Inl (RuntimeError m), s') \<Longrightarrow> m = msg_no_port sp"
  by (induction ports arbitrary: s)
     (auto simp: connect_ex_def connect_result_def split: sum.splits if_splits)

lemma length_upto_int: "length [a..b] = nat (b - a + 1)"
  by simp

lemma nth_upto_int: "j < nat (b - a + 1) \<Longrightarrow> [a..b] ! j = a + int j"
  by simp

lemma take_upto_int: "int n \<le> b - a + 1 \<Longrightarrow> take n [a..b] = [a..a + int n - 1]"
proof (induction n arbitrary: a)
  case 0
  then show ?case by simp
next
  case (Suc n)
  then have "a \<le> b" by simp
  then have "[a..b] = a # [a + 1..b]" by (simp add: upto_rec1)
  moreover have "[a..a + int (Suc n) - 1] = a # [a + 1..a + int (Suc n) - 1]" by (simp add: upto_rec1)
  moreover have "take n [a + 1..b] = [a + 1..a + 1 + int n - 1]" using Suc.IH [of "a + 1"] Suc.prems by simp
  ultimately show ?case by (simp add: add.commute add.left_commute)
qed

lemma find_available_port_free:
  assumes i: "i < nat tries"
    and before: "\<forall>j<i. connect_succeeds e (calls s + j) (start_port + int j)"
    and at: "connect_fails e (calls s + i) (start_port + int i)"
  shows "find_available_port e start_port tries s =
        (Inr (start_port + int i),
         s\<lparr>calls := calls s + Suc i, trace := trace s @ map Probe [start_port..start_port + int i]\<rparr>)"
proof -
  let ?ports = "[start_port..start_port + tries - 1]"
  have nth: "\<And>j. j < nat tries \<Longrightarrow> ?ports ! j = start_port + int j" by simp
  from at obtain rc where rc: "rc \<noteq> 0"
    and at': "connect_result e (calls s + i) (start_port + int i) = Inr rc"
    by (auto simp: connect_fails_iff)
  have 1: "i < length ?ports" using i by simp
  have 2: "\<forall>j<i. connect_result e (calls s + j) (?ports ! j) = Inr 0"
    using before i by (simp add: nth connect_succeeds_def)
  have 3: "connect_result e (calls s + i) (?ports ! i) = Inr rc" using at' i by (simp add: nth)
  have "take (Suc i) ?ports = [start_port..start_port + int (Suc i) - 1]"
    using i by (intro take_upto_int) simp
  then have 4: "take (Suc i) ?ports = [start_port..start_port + int i]" by simp
  from fap_loop_free [OF 1 2 3 rc, of start_port] show ?thesis
    using i by (simp only: find_available_port_def nth 4)
qed

lemma find_available_port_busy:
  assumes "\<forall>j<nat tries. connect_succeeds e (calls s + j) (start_port + int j)"
  shows "find_available_port e start_port tries s =
        (Inl (RuntimeError (msg_no_port start_port)),
         s\<lparr>calls := calls s + nat tries,
           trace := trace s @ map Probe [start_port..start_port + tries - 1]\<rparr>)"
proof -
  let ?ports = "[start_port..start_port + tries - 1]"
  have len: "length ?ports = nat tries" by simp
  have "\<forall>j<length ?ports. connect_result e (calls s + j) (?ports ! j) = Inr 0"
    using assms by (simp add: connect_succeeds_def)
  from fap_loop_busy [OF this, of start_port] show ?thesis
    by (simp only: find_available_port_def len)
qed

lemma upto_8000_8002: "[8000..8002::int] = [8000, 8001, 8002]"
  by (simp add: upto_rec1)

text \<open>
  Claim C1. For every starting port \<open>P\<close> and attempt budget \<open>N\<close>, \<open>find_available_port\<close>
  probes \<open>P, P+1, \<dots>\<close> in increasing order, one connect each, and returns the first port
  whose connect fails, having probed exactly the ports up to it; when the connect
  succeeds for every port of \<open>P..P+N-1\<close> it raises the error instead, having probed them
  all. Conversely a returned port is always the first failing one of the range, and the
  error is raised only when every port of the range accepted the connect.
\<close>

theorem find_available_port_first_free:
  "(\<forall>i. i < nat tries \<longrightarrow>
      (\<forall>j<i. connect_succeeds e (calls s + j) (start_port + int j)) \<longrightarrow>
      connect_fails e (calls s + i) (start_port + int i) \<longrightarrow>
      find_available_port e start_port tries s =
        (Inr (start_port + int i),
         s\<lparr>calls := calls s + Suc i, trace := trace s @ map Probe [start_port..start_port + int i]\<rparr>))
   \<and> ((\<forall>j<nat tries. connect_succeeds e (calls s + j) (start_port + int j)) \<longrightarrow>
      find_available_port e start_port tries s =
        (Inl (RuntimeError (msg_no_port start_port)),
         s\<lparr>calls := calls s + nat tries,
           trace := trace s @ map Probe [start_port..start_port + tries - 1]\<rparr>))
   \<and> (\<forall>q s'. find_available_port e start_port tries s = (Inr q, s') \<longrightarrow>
        (\<exists>i<nat tries. q = start_port + int i \<and>
           (\<forall>j<i. connect_succeeds e (calls s + j) (start_port + int j)) \<and>
           connect_fails e (calls s + i) (start_port + int i)))
   \<and> (\<forall>m s'. find_available_port e start_port tries s = (Inl (RuntimeError m), s') \<longrightarrow>
        (\<forall>j<nat tries. connect_succeeds e (calls s + j) (start_port + int j)))"
proof -
  let ?ports = "[start_port..start_port + tries - 1]"
  have nth: "\<And>j. j < nat tries \<Longrightarrow> ?ports ! j = start_port + int j" by simp
  have C: "\<exists>i<nat tries. q = start_port + int i \<and>
           (\<forall>j<i. connect_succeeds e (calls s + j) (start_port + int j)) \<and>
           connect_fails e (calls s + i) (start_port + int i)"
    if "find_available_port e start_port tries s = (Inr q, s')" for q s'
  proof -
    from that have "find_available_port_loop e start_port ?ports s = (Inr q, s')"
      by (simp only: find_available_port_def)
    from fap_loop_Inr [OF this] obtain i where i: "i < length ?ports" "q = ?ports ! i"
      "\<forall>j<i. connect_result e (calls s + j) (?ports ! j) = Inr 0"
      "\<exists>rc. rc \<noteq> 0 \<and> connect_result e (calls s + i) (?ports ! i) = Inr rc" by blast
    from i(1) have i': "i < nat tries" by simp
    have "\<forall>j<i. connect_succeeds e (calls s + j) (start_port + int j)"
      using i(3) i' by (simp add: nth connect_succeeds_def)
    moreover have "connect_fails e (calls s + i) (start_port + int i)"
      using i(4) i' by (simp add: nth connect_fails_iff)
    moreover have "q = start_port + int i" using i(2) i' by (simp add: nth)
    ultimately show ?thesis using i' by blast
  qed
  have D: "\<forall>j<nat tries. connect_succeeds e (calls s + j) (start_port + int j)"
    if "find_available_port e start_port tries s = (Inl (RuntimeError m), s')" for m s'
  proof -
    from that have "find_available_port_loop e start_port ?ports s = (Inl (RuntimeError m), s')"
      by (simp only: find_available_port_def)
    from fap_loop_RuntimeError [OF this] show ?thesis by (simp add: nth connect_succeeds_def)
  qed
  from find_available_port_free [of _ tries e s start_port]
    find_available_port_busy [of tries e s start_port] C D
  show ?thesis by blast
qed

theorem find_available_port_first_free_witness:
  "find_available_port env_typical 8000 25 init_st =
     (Inr 8002, \<lparr>calls = 3, trace = map Probe [8000..8002]\<rparr>)
   \<and> find_available_port env_all_busy 8000 25 init_st =
     (Inl (RuntimeError (msg_no_port 8000)), \<lparr>calls = 25, trace = map Probe [8000..8024]\<rparr>)"
proof -
  have i: "(2::nat) < nat 25" by simp
  have before: "\<forall>j<2. connect_succeeds env_typical (calls init_st + j) (8000 + int j)"
    by (simp add: connect_succeeds_def connect_result_def env_typical_def env_ports_def)
  have at: "connect_fails env_typical (calls init_st + 2) (8000 + int 2)"
    by (simp add: connect_fails_def connect_result_def env_typical_def env_ports_def init_st_def)
  have busy: "\<forall>j<nat 25. connect_succeeds env_all_busy (calls init_st + j) (8000 + int j)"
    by (simp add: connect_succeeds_def connect_result_def env_all_busy_def env_ports_def)
  have thm1: "find_available_port env_typical 8000 25 init_st =
      (Inr (8000 + int 2),
       init_st\<lparr>calls := calls init_st + Suc 2, trace := trace init_st @ map Probe [8000..8000 + int 2]\<rparr>)"
    using find_available_port_first_free [of 25 env_typical init_st 8000] i before at by blast
  have thm2: "find_available_port env_all_busy 8000 25 init_st =
      (Inl (RuntimeError (msg_no_port 8000)),
       init_st\<lparr>calls := calls init_st + nat 25, trace := trace init_st @ map Probe [8000..8000 + 25 - 1]\<rparr>)"
    using find_available_port_first_free [of 25 env_all_busy init_st 8000] busy by blast
  have a: "find_available_port env_typical 8000 25 init_st =
     (Inr 8002, \<lparr>calls = 3, trace = map Probe [8000..8002]\<rparr>)"
    unfolding thm1 by (simp add: init_st_def)
  have b: "find_available_port env_all_busy 8000 25 init_st =
     (Inl (RuntimeError (msg_no_port 8000)), \<lparr>calls = 25, trace = map Probe [8000..8024]\<rparr>)"
    unfolding thm2 by (simp add: init_st_def)
  from a b show ?thesis by (rule conjI)
qed

text \<open>
  Claim C6, as the code has it. When every probed port is occupied, the error raised by
  \<open>find_available_port\<close> names the start of the scanned range only: its message is a
  fixed text around the decimal starting port, whatever the budget \<open>N\<close>, and any
  \<open>RuntimeError\<close> the function raises carries exactly that message.
\<close>

theorem exhaustion_error_names_start_port:
  "(\<forall>m s'. find_available_port e start_port tries s = (Inl (RuntimeError m), s') \<longrightarrow>
       m = msg_no_port start_port)
   \<and> ((\<forall>j<nat tries. connect_succeeds e (calls s + j) (start_port + int j)) \<longrightarrow>
       fst (find_available_port e start_port tries s) = Inl (RuntimeError (msg_no_port start_port)))
   \<and> sublist (str_int start_port) (msg_no_port start_port)"
proof -
  have 1: "m = msg_no_port start_port"
    if "find_available_port e start_port tries s = (Inl (RuntimeError m), s')" for m s'
    using that unfolding find_available_port_def by (rule fap_loop_RuntimeError_msg)
  have 2: "fst (find_available_port e start_port tries s) = Inl (RuntimeError (msg_no_port start_port))"
    if "\<forall>j<nat tries. connect_succeeds e (calls s + j) (start_port + int j)"
    using find_available_port_busy [OF that] by simp
  have 3: "sublist (str_int start_port) (msg_no_port start_port)"
    unfolding msg_no_port_def by (rule sublist_appendI)
  from 1 2 3 show ?thesis by blast
qed

theorem exhaustion_error_names_start_port_witness:
  "fst (find_available_port env_all_busy 8000 25 init_st) = Inl (RuntimeError (msg_no_port 8000))
   \<and> sublist (str_int 8000) (msg_no_port 8000)"
proof -
  have busy: "\<forall>j<nat 25. connect_succeeds env_all_busy (calls init_st + j) (8000 + int j)"
    by (simp add: connect_succeeds_def connect_result_def env_all_busy_def env_ports_def)
  from exhaustion_error_names_start_port [of env_all_busy 8000 25 init_st] busy
  show ?thesis by blast
qed

text \<open>
  Claim C6 as stated asks for both ends of the range in the message. With ports
  8000..8024 all occupied the message holds \<open>8000\<close> but neither \<open>8024\<close>, nor \<open>8025\<close>, nor
  the budget \<open>25\<close>.
\<close>

theorem exhaustion_message_lacks_range_end:
  "find_available_port env_all_busy 8000 25 init_st =
     (Inl (RuntimeError (msg_no_port 8000)), \<lparr>calls = 25, trace = map Probe [8000..8024]\<rparr>)
   \<and> sublist ''8000'' (msg_no_port 8000)
   \<and> \<not> sublist ''8024'' (msg_no_port 8000)
   \<and> \<not> sublist ''8025'' (msg_no_port 8000)
   \<and> \<not> sublist ''25'' (msg_no_port 8000)"
proof -
  have busy: "\<forall>j<nat 25. connect_succeeds env_all_busy (calls init_st + j) (8000 + int j)"
    by (simp add: connect_succeeds_def connect_result_def env_all_busy_def env_ports_def)
  have a: "find_available_port env_all_busy 8000 25 init_st =
     (Inl (RuntimeError (msg_no_port 8000)), \<lparr>calls = 25, trace = map Probe [8000..8024]\<rparr>)"
    using find_available_port_busy [OF busy] by (simp add: init_st_def)
  have b: "sublist ''8000'' (msg_no_port 8000)"
    by (simp add: msg_no_port_def str_int_8000 sublist_code)
  have c: "\<not> sublist ''8024'' (msg_no_port 8000)"
    by (simp add: msg_no_port_def str_int_8000 sublist_code)
  have d: "\<not> sublist ''8025'' (msg_no_port 8000)"
    by (simp add: msg_no_port_def str_int_8000 sublist_code)
  have e: "\<not> sublist ''25'' (msg_no_port 8000)"
    by (simp add: msg_no_port_def str_int_8000 sublist_code)
  from a b c d e show ?thesis by blast
qed

subsection \<open>The readiness wait\<close>

lemma wul_loop_ok:
  "i < n \<Longrightarrow>
   \<forall>j<i. connect_fails e (calls s + j) port \<Longrightarrow>
   connect_succeeds e (calls s + i) port \<Longrightarrow>
   wait_until_listening_loop e port d n s =
     (Inr (), s\<lparr>calls := calls s + Suc i,
               trace := trace s @ concat (replicate i [Probe port, Sleep d]) @ [Probe port]\<rparr>)"
proof (induction n arbitrary: s i)
  case 0
  then show ?case by simp
next
  case (Suc n)
  show ?case
  proof (cases i)
    case 0
    with Suc.prems show ?thesis by (simp add: connect_ex_def connect_succeeds_def)
  next
    case (Suc k)
    let ?s' = "emit (Sleep d) (s\<lparr>calls := Suc (calls s), trace := trace s @ [Probe port]\<rparr>)"
    from Suc.prems(2) Suc have "connect_fails e (calls s + 0) port" by blast
    then obtain rc where rc: "rc \<noteq> 0" "connect_result e (calls s) port = Inr rc"
      by (auto simp: connect_fails_iff)
    have k: "k < n" using Suc.prems(1) Suc by simp
    have a: "\<forall>j<k. connect_fails e (calls ?s' + j) port"
    proof (intro allI impI)
      fix j assume "j < k"
      then have "Suc j < i" using Suc by simp
      with Suc.prems(2) have "connect_fails e (calls s + Suc j) port" by blast
      then show "connect_fails e (calls ?s' + j) port" by (simp add: emit_def)
    qed
    have b: "connect_succeeds e (calls ?s' + k) port"
      using Suc.prems(3) Suc by (simp add: emit_def)
    from Suc.IH [OF k a b] rc Suc show ?thesis
      by (simp add: connect_ex_def emit_def)
  qed
qed

lemma wul_loop_timeout:
  "\<forall>j<n. connect_fails e (calls s + j) port \<Longrightarrow>
   wait_until_listening_loop e port d n s =
     (Inl (RuntimeError msg_timeout),
      s\<lparr>calls := calls s + n, trace := trace s @ concat (replicate n [Probe port, Sleep d])\<rparr>)"
proof (induction n arbitrary: s)
  case 0
  then show ?case by simp
next
  case (Suc n)
  let ?s' = "emit (Sleep d) (s\<lparr>calls := Suc (calls s), trace := trace s @ [Probe port]\<rparr>)"
  from Suc.prems have "connect_fails e (calls s + 0) port" by blast
  then obtain rc where rc: "rc \<noteq> 0" "connect_result e (calls s) port = Inr rc"
    by (auto simp: connect_fails_iff)
  have a: "\<forall>j<n. connect_fails e (calls ?s' + j) port"
  proof (intro allI impI)
    fix j assume "j < n"
    then have "Suc j < Suc n" by simp
    with Suc.prems have "connect_fails e (calls s + Suc j) port" by blast
    then show "connect_fails e (calls ?s' + j) port" by (simp add: emit_def)
  qed
  from Suc.IH [OF a] rc show ?case by (simp add: connect_ex_def emit_def)
qed

lemma wul_loop_RuntimeError:
  "wait_until_listening_loop e port d n s = (Inl (RuntimeError m), s') \<Longrightarrow>
   \<forall>j<n. connect_fails e (calls s + j) port"
proof (induction n arbitrary: s)
  case 0
  then show ?case by simp
next
  case (Suc n)
  let ?s' = "emit (Sleep d) (s\<lparr>calls := Suc (calls s), trace := trace s @ [Probe port]\<rparr>)"
  from Suc.prems obtain rc where rc: "connect_result e (calls s) port = Inr rc"
    by (cases "connect_result e (calls s) port")
       (auto simp: connect_ex_def connect_result_def split: if_splits)
  with Suc.prems have rc0: "rc \<noteq> 0" by (auto simp: connect_ex_def)
  with rc Suc.prems have "wait_until_listening_loop e port d n ?s' = (Inl (RuntimeError m), s')"
    by (simp add: connect_ex_def)
  from Suc.IH [OF this] have ih: "\<forall>j<n. connect_fails e (calls s + Suc j) port"
    by (simp add: emit_def)
  show ?case
  proof (intro allI impI)
    fix j assume j: "j < Suc n"
    show "connect_fails e (calls s + j) port"
    proof (cases j)
      case 0
      with rc rc0 show ?thesis by (simp add: connect_fails_def)
    next
      case (Suc k)
      with j ih show ?thesis by simp
    qed
  qed
qed

lemma wul_loop_Inr:
  "wait_until_listening_loop e port d n s = (Inr u, s') \<Longrightarrow>
   \<exists>i<n. (\<forall>j<i. connect_fails e (calls s + j) port) \<and> connect_succeeds e (calls s + i) port"
proof (induction n arbitrary: s)
  case 0
  then show ?case by simp
next
  case (Suc n)
  let ?s' = "emit (Sleep d) (s\<lparr>calls := Suc (calls s), trace := trace s @ [Probe port]\<rparr>)"
  from Suc.prems obtain rc where rc: "connect_result e (calls s) port = Inr rc"
    by (cases "connect_result e (calls s) port") (auto simp: connect_ex_def)
  show ?case
  proof (cases "rc = 0")
    case True
    with rc have "(\<forall>j<0. connect_fails e (calls s + j) port) \<and> connect_succeeds e (calls s + 0) port"
      by (simp add: connect_succeeds_def)
    then show ?thesis by (intro exI [of _ 0]) simp
  next
    case False
    with rc Suc.prems have "wait_until_listening_loop e port d n ?s' = (Inr u, s')"
      by (simp add: connect_ex_def)
    from Suc.IH [OF this] obtain i where i: "i < n"
      "\<forall>j<i. connect_fails e (calls s + Suc j) port"
      "connect_succeeds e (calls s + Suc i) port" by (auto simp: emit_def)
    have "\<forall>j<Suc i. connect_fails e (calls s + j) port"
    proof (intro allI impI)
      fix j assume j: "j < Suc i"
      show "connect_fails e (calls s + j) port"
      proof (cases j)
        case 0
        with rc False show ?thesis by (simp add: connect_fails_def)
      next
        case (Suc k)
        with j i(2) show ?thesis by simp
      qed
    qed
    with i show ?thesis by (intro exI [of _ "Suc i"]) simp
  qed
qed

text \<open>
  Claim C3. For every port and retry budget, \<open>wait_until_listening\<close> returns normally at
  the first connect that succeeds, after one probe per attempt and one sleep of the given
  delay between two attempts, and it raises the start-up timeout error if and only if
  every attempt of the budget fails. The launcher calls it with 40 attempts and 150 ms.
\<close>

theorem wait_until_listening_first_success:
  "(\<forall>i. i < nat retries \<longrightarrow>
      (\<forall>j<i. connect_fails e (calls s + j) port) \<longrightarrow>
      connect_succeeds e (calls s + i) port \<longrightarrow>
      wait_until_listening e port retries delay s =
        (Inr (), s\<lparr>calls := calls s + Suc i,
                  trace := trace s @ concat (replicate i [Probe port, Sleep delay]) @ [Probe port]\<rparr>))
   \<and> ((\<exists>s'. wait_until_listening e port retries delay s = (Inl (RuntimeError msg_timeout), s'))
        \<longleftrightarrow> (\<forall>j<nat retries. connect_fails e (calls s + j) port))
   \<and> (\<forall>u s'. wait_until_listening e port retries delay s = (Inr u, s') \<longrightarrow>
        (\<exists>i<nat retries. connect_succeeds e (calls s + i) port))"
proof -
  have A: "wait_until_listening e port retries delay s =
        (Inr (), s\<lparr>calls := calls s + Suc i,
                  trace := trace s @ concat (replicate i [Probe port, Sleep delay]) @ [Probe port]\<rparr>)"
    if "i < nat retries" "\<forall>j<i. connect_fails e (calls s + j) port"
       "connect_succeeds e (calls s + i) port" for i
    unfolding wait_until_listening_def using that by (rule wul_loop_ok)
  have B1: "\<forall>j<nat retries. connect_fails e (calls s + j) port"
    if "wait_until_listening e port retries delay s = (Inl (RuntimeError msg_timeout), s')" for s'
    using that unfolding wait_until_listening_def by (rule wul_loop_RuntimeError)
  have B2: "\<exists>s'. wait_until_listening e port retries delay s = (Inl (RuntimeError msg_timeout), s')"
    if "\<forall>j<nat retries. connect_fails e (calls s + j) port"
    unfolding wait_until_listening_def using wul_loop_timeout [OF that, of delay] by blast
  have C: "\<exists>i<nat retries. connect_succeeds e (calls s + i) port"
    if "wait_until_listening e port retries delay s = (Inr u, s')" for u s'
    using that unfolding wait_until_listening_def by (blast dest: wul_loop_Inr)
  from A B1 B2 C show ?thesis by blast
qed

theorem wait_until_listening_first_success_witness:
  "wait_until_listening env_typical 8002 40 150 \<lparr>calls = 3, trace = []\<rparr> =
     (Inr (), \<lparr>calls = 6, trace = [Probe 8002, Sleep 150, Probe 8002, Sleep 150, Probe 8002]\<rparr>)
   \<and> (\<exists>s'. wait_until_listening env_never_ready 8000 40 150 \<lparr>calls = 1, trace = []\<rparr> =
         (Inl (RuntimeError msg_timeout), s'))"
proof -
  let ?s = "\<lparr>calls = 3, trace = []\<rparr>"
  let ?t = "\<lparr>calls = 1, trace = []\<rparr>"
  have i: "(2::nat) < nat 40" by simp
  have before: "\<forall>j<2. connect_fails env_typical (calls ?s + j) 8002"
    by (simp add: connect_fails_def connect_result_def env_typical_def env_ports_def)
  have at: "connect_succeeds env_typical (calls ?s + 2) 8002"
    by (simp add: connect_succeeds_def connect_result_def env_typical_def env_ports_def)
  have never: "\<forall>j<nat 40. connect_fails env_never_ready (calls ?t + j) 8000"
    by (simp add: connect_fails_def connect_result_def env_never_ready_def env_ports_def)
  have a: "wait_until_listening env_typical 8002 40 150 ?s =
      (Inr (), ?s\<lparr>calls := calls ?s + Suc 2,
                   trace := trace ?s @ concat (replicate 2 [Probe 8002, Sleep 150]) @ [Probe 8002]\<rparr>)"
    using wait_until_listening_first_success [of 40 env_typical ?s 8002 150] i before at by blast
  have b: "\<exists>s'. wait_until_listening env_never_ready 8000 40 150 ?t =
         (Inl (RuntimeError msg_timeout), s')"
    using wait_until_listening_first_success [of 40 env_never_ready ?t 8000 150] never by blast
  have c: "concat (replicate 2 [Probe 8002, Sleep 150]) @ [Probe 8002] =
      [Probe 8002, Sleep 150, Probe 8002, Sleep 150, Probe 8002]"
    by (simp add: numeral_2_eq_2)
  from a b show ?thesis by (simp add: c)
qed

subsection \<open>What the startup leaves in the trace\<close>

lemma connect_ex_trace:
  "connect_ex e port s = (r, s') \<Longrightarrow>
   \<exists>evs. trace s' = trace s @ evs \<and> list_all startup_event evs"
  by (auto simp: connect_ex_def startup_event_def split: sum.splits)

lemma fap_loop_trace:
  "find_available_port_loop e sp ports s = (r, s') \<Longrightarrow>
   \<exists>evs. trace s' = trace s @ evs \<and> list_all startup_event evs"
proof (induction ports arbitrary: s)
  case Nil
  then show ?case by simp
next
  case (Cons p ps)
  obtain r1 s1 where c: "connect_ex e p s = (r1, s1)" by (cases "connect_ex e p s")
  from connect_ex_trace [OF c] obtain evs1 where
    e1: "trace s1 = trace s @ evs1" "list_all startup_event evs1" by blast
  show ?case
  proof (cases r1)
    case (Inl x)
    with c Cons.prems have "s' = s1" by simp
    with e1 show ?thesis by blast
  next
    case (Inr rc)
    show ?thesis
    proof (cases "rc = 0")
      case False
      with c Inr Cons.prems have "s' = s1" by simp
      with e1 show ?thesis by blast
    next
      case True
      with c Inr Cons.prems have "find_available_port_loop e sp ps s1 = (r, s')" by simp
      from Cons.IH [OF this] obtain evs2 where
        "trace s' = trace s1 @ evs2" "list_all startup_event evs2" by blast
      with e1 have "trace s' = trace s @ (evs1 @ evs2) \<and> list_all startup_event (evs1 @ evs2)"
        by simp
      then show ?thesis by blast
    qed
  qed
qed

lemma wul_loop_trace:
  "wait_until_listening_loop e port d n s = (r, s') \<Longrightarrow>
   \<exists>evs. trace s' = trace s @ evs \<and> list_all startup_event evs"
proof (induction n arbitrary: s)
  case 0
  then show ?case by simp
next
  case (Suc n)
  obtain r1 s1 where c: "connect_ex e port s = (r1, s1)" by (cases "connect_ex e port s")
  from connect_ex_trace [OF c] obtain evs1 where
    e1: "trace s1 = trace s @ evs1" "list_all startup_event evs1" by blast
  show ?case
  proof (cases r1)
    case (Inl x)
    with c Suc.prems have "s' = s1" by simp
    with e1 show ?thesis by blast
  next
    case (Inr rc)
    show ?thesis
    proof (cases "rc = 0")
      case True
      with c Inr Suc.prems have "s' = s1" by simp
      with e1 show ?thesis by blast
    next
      case False
      with c Inr Suc.prems
      have "wait_until_listening_loop e port d n (emit (Sleep d) s1) = (r, s')" by simp
      from Suc.IH [OF this] obtain evs2 where
        "trace s' = trace (emit (Sleep d) s1) @ evs2" "list_all startup_event evs2" by blast
      with e1 have "trace s' = trace s @ (evs1 @ Sleep d # evs2) \<and>
          list_all startup_event (evs1 @ Sleep d # evs2)"
        by (simp add: emit_def startup_event_def)
      then show ?thesis by blast
    qed
  qed
qed

lemma main_startup_Inr:
  assumes "main_startup e args = (Inr (port, url), s)"
  shows "url = ''http://localhost:'' @ str_int port @ ''/'' @ lstrip_slash (arg_entry args)"
    and "list_all startup_event (trace s)"
    and "ServerCreate port (build_handler (resolve e (arg_root args))) \<in> set (trace s)"
    and "ThreadStart \<in> set (trace s)"
    and "Print (msg_access @ url) \<in> set (trace s)"
    and "\<exists>s1 s2. find_available_port e (arg_port args) 25 s1 = (Inr port, s2)"
proof -
  define root where "root = resolve e (arg_root args)"
  define mk where
    "mk = (\<lambda>p. ''http://localhost:'' @ str_int p @ ''/'' @ lstrip_slash (arg_entry args))"
  have unf: "main_startup e args =
     (if \<not> path_exists e root then (Inl (SystemExit (msg_no_root @ root)), init_st)
      else
        case chdir e root init_st of
          (Inl x, s1) \<Rightarrow> (Inl x, s1)
        | (Inr _, s1) \<Rightarrow>
           (case find_available_port e (arg_port args) 25 s1 of
              (Inl x, s2) \<Rightarrow> (Inl x, s2)
            | (Inr p, s2) \<Rightarrow>
               (case create_server e p (build_handler root) s2 of
                     (Inl x, s3) \<Rightarrow> (Inl x, s3)
                   | (Inr _, s3) \<Rightarrow>
                      (case wait_until_listening e p 40 150
                              (emit ThreadStart (print_banner root (mk p) s3)) of
                            (Inl x, s6) \<Rightarrow> (Inl x, s6)
                          | (Inr _, s6) \<Rightarrow> (Inr (p, mk p), s6)))))"
    unfolding main_startup_def root_def mk_def Let_def ..
  from assms have ex: "path_exists e root"
    by (auto simp: unf split: if_splits)
  obtain r1 s1 where c1: "chdir e root init_st = (r1, s1)" by (cases "chdir e root init_st")
  from assms ex c1 obtain u1 where r1: "r1 = Inr u1"
    by (cases r1) (auto simp: unf)
  from c1 r1 have s1: "s1 = emit (Chdir root) init_st"
    by (auto simp: chdir_def split: option.splits node.splits if_splits)
  obtain r2 s2 where c2: "find_available_port e (arg_port args) 25 s1 = (r2, s2)"
    by (cases "find_available_port e (arg_port args) 25 s1")
  from assms ex c1 r1 c2 obtain p where r2: "r2 = Inr p"
    by (cases r2) (auto simp: unf)
  obtain r3 s3 where c3: "create_server e p (build_handler root) s2 = (r3, s3)"
    by (cases "create_server e p (build_handler root) s2")
  from assms ex c1 r1 c2 r2 c3 obtain u3 where r3: "r3 = Inr u3"
    by (cases r3) (auto simp: unf)
  from c3 r3 have s3: "s3 = emit (ServerCreate p (build_handler root)) s2"
    by (auto simp: create_server_def split: if_splits)
  define s5 where "s5 = emit ThreadStart (print_banner root (mk p) s3)"
  obtain r6 s6 where c6: "wait_until_listening e p 40 150 s5 = (r6, s6)"
    by (cases "wait_until_listening e p 40 150 s5")
  from assms ex c1 r1 c2 r2 c3 r3 c6 have res: "port = p \<and> url = mk p \<and> s = s6"
    by (cases r6) (auto simp: unf s5_def [symmetric])
  from c2 have "\<exists>evs. trace s2 = trace s1 @ evs \<and> list_all startup_event evs"
    unfolding find_available_port_def by (rule fap_loop_trace)
  then obtain evs2 where t2: "trace s2 = trace s1 @ evs2" "list_all startup_event evs2" by blast
  from c6 have "\<exists>evs. trace s6 = trace s5 @ evs \<and> list_all startup_event evs"
    unfolding wait_until_listening_def by (rule wul_loop_trace)
  then obtain evs6 where t6: "trace s6 = trace s5 @ evs6" "list_all startup_event evs6" by blast
  have t5: "trace s5 = Chdir root # evs2 @
      [ServerCreate p (build_handler root),
       Print (replicate 60 CHR ''-''), Print (msg_static_dir @ root),
       Print (msg_access @ mk p), Print msg_howto_close, Print (replicate 60 CHR ''-''),
       ThreadStart]"
    by (simp add: s5_def s1 s3 t2 emit_def print_banner_def init_st_def)
  have ts: "trace s = Chdir root # evs2 @
      [ServerCreate port (build_handler root),
       Print (replicate 60 CHR ''-''), Print (msg_static_dir @ root),
       Print (msg_access @ url), Print msg_howto_close, Print (replicate 60 CHR ''-''),
       ThreadStart] @ evs6"
    using res t6(1) t5 by simp
  show "url = ''http://localhost:'' @ str_int port @ ''/'' @ lstrip_slash (arg_entry args)"
    using res by (simp add: mk_def)
  show "list_all startup_event (trace s)"
    unfolding ts using t2(2) t6(2) by (simp add: startup_event_def)
  show "ServerCreate port (build_handler (resolve e (arg_root args))) \<in> set (trace s)"
    unfolding ts root_def by simp
  show "ThreadStart \<in> set (trace s)"
    unfolding ts by simp
  show "Print (msg_access @ url) \<in> set (trace s)"
    unfolding ts by simp
  show "\<exists>s1 s2. find_available_port e (arg_port args) 25 s1 = (Inr port, s2)"
    using c2 r2 res by blast
qed

subsection \<open>The liveness loop and the end of \<open>main\<close>\<close>

lemma liveness_loop_slept:
  "\<forall>j<n. wait_event e (i + j) = Slept \<Longrightarrow> n \<le> fuel \<Longrightarrow>
   liveness_loop e fuel i s =
     liveness_loop e (fuel - n) (i + n) (s\<lparr>trace := trace s @ replicate n (Sleep 500)\<rparr>)"
proof (induction n arbitrary: fuel i s)
  case 0
  then show ?case by simp
next
  case (Suc n)
  from Suc.prems(2) obtain f where f: "fuel = Suc f" by (cases fuel) auto
  from Suc.prems(1) have w: "wait_event e (i + 0) = Slept" by blast
  have a: "\<forall>j<n. wait_event e (Suc i + j) = Slept"
  proof (intro allI impI)
    fix j assume "j < n"
    then have "Suc j < Suc n" by simp
    with Suc.prems(1) have "wait_event e (i + Suc j) = Slept" by blast
    then show "wait_event e (Suc i + j) = Slept" by simp
  qed
  have b: "n \<le> f" using Suc.prems(2) f by simp
  from Suc.IH [OF a b] w f show ?case
    by (simp add: emit_def replicate_app_Cons_same)
qed

lemma liveness_loop_trace:
  "liveness_loop e fuel i s = (r, s') \<Longrightarrow> \<exists>k. trace s' = trace s @ replicate k (Sleep 500)"
proof (induction fuel arbitrary: i s)
  case 0
  then have "trace s' = trace s @ replicate 0 (Sleep 500)" by simp
  then show ?case by blast
next
  case (Suc fuel)
  show ?case
  proof (cases "wait_event e i")
    case Slept
    with Suc.prems have "liveness_loop e fuel (Suc i) (emit (Sleep 500) s) = (r, s')" by simp
    from Suc.IH [OF this] obtain k where "trace s' = trace (emit (Sleep 500) s) @ replicate k (Sleep 500)"
      by blast
    then have "trace s' = trace s @ replicate (Suc k) (Sleep 500)" by (simp add: emit_def)
    then show ?thesis by blast
  next
    case ThreadDead
    with Suc.prems have "trace s' = trace s @ replicate 0 (Sleep 500)" by simp
    then show ?thesis by blast
  next
    case Interrupt
    with Suc.prems have "trace s' = trace s @ replicate 0 (Sleep 500)" by simp
    then show ?thesis by blast
  qed
qed

lemma main_after_startup:
  "main_startup e args = (Inr (port, url), s) \<Longrightarrow> browser_result e url = Inr opened \<Longrightarrow>
   main e args fuel =
     (case liveness_loop e fuel 0 (s\<lparr>trace := trace s @ [BrowserOpen url, Print msg_browser]\<rparr>) of
        (StillWaiting, s9) \<Rightarrow> (Serving, s9)
      | (LoopDone, s9) \<Rightarrow> (Returned, main_finally s9)
      | (Interrupted, s9) \<Rightarrow> (Returned, main_finally (emit (Print msg_interrupt) s9)))"
  by (simp add: main_def webbrowser_open_def emit_def)

lemma main_browser_raised:
  "main_startup e args = (Inr (port, url), s) \<Longrightarrow> browser_result e url = Inl x \<Longrightarrow>
   main e args fuel = (Raised x, s\<lparr>trace := trace s @ [BrowserOpen url]\<rparr>)"
  by (simp add: main_def webbrowser_open_def emit_def)

lemma main_browser_returned:
  "main_startup e args = (Inr (port, url), s) \<Longrightarrow> browser_result e url = Inr opened \<Longrightarrow>
   main e args 0 = (Serving, s\<lparr>trace := trace s @ [BrowserOpen url, Print msg_browser]\<rparr>)"
  by (simp add: main_after_startup)

lemma main_trace_after_startup:
  assumes "main_startup e args = (Inr (port, url), s)"
  shows "\<exists>rest. trace (snd (main e args fuel)) = trace s @ BrowserOpen url # rest
           \<and> (\<forall>u. BrowserOpen u \<notin> set rest)"
proof (cases "browser_result e url")
  case (Inl x)
  from main_browser_raised [OF assms Inl, of fuel]
  have "trace (snd (main e args fuel)) = trace s @ BrowserOpen url # []" by simp
  then show ?thesis by fastforce
next
  case (Inr opened)
  note after = main_after_startup [OF assms Inr, of fuel]
  let ?s8 = "s\<lparr>trace := trace s @ [BrowserOpen url, Print msg_browser]\<rparr>"
  obtain r s9 where l: "liveness_loop e fuel 0 ?s8 = (r, s9)"
    by (cases "liveness_loop e fuel 0 ?s8")
  from liveness_loop_trace [OF l] obtain k where
    k: "trace s9 = trace s @ [BrowserOpen url, Print msg_browser] @ replicate k (Sleep 500)" by auto
  show ?thesis
  proof (cases r)
    case StillWaiting
    with l k show ?thesis by (simp add: after)
  next
    case LoopDone
    with l k show ?thesis by (simp add: after main_finally_def emit_def)
  next
    case Interrupted
    with l k show ?thesis by (simp add: after main_finally_def emit_def)
  qed
qed

subsection \<open>The startup does not ask the browser\<close>

lemma connect_ex_browser: "connect_ex (e\<lparr>browser_result := b\<rparr>) = connect_ex e"
  by (simp add: connect_ex_def connect_result_def fun_eq_iff)

lemma fap_loop_browser:
  "find_available_port_loop (e\<lparr>browser_result := b\<rparr>) sp ports s = find_available_port_loop e sp ports s"
  by (induction ports arbitrary: s) (auto simp: connect_ex_browser split: prod.splits sum.splits)

lemma wul_loop_browser:
  "wait_until_listening_loop (e\<lparr>browser_result := b\<rparr>) port d n s = wait_until_listening_loop e port d n s"
  by (induction n arbitrary: s) (auto simp: connect_ex_browser split: prod.splits sum.splits)

lemma startup_calls_browser:
  "chdir (e\<lparr>browser_result := b\<rparr>) = chdir e"
  "create_server (e\<lparr>browser_result := b\<rparr>) = create_server e"
  "find_available_port (e\<lparr>browser_result := b\<rparr>) = find_available_port e"
  "wait_until_listening (e\<lparr>browser_result := b\<rparr>) = wait_until_listening e"
  "path_exists (e\<lparr>browser_result := b\<rparr>) = path_exists e"
  by (simp_all add: fun_eq_iff chdir_def create_server_def find_available_port_def
      fap_loop_browser wait_until_listening_def wul_loop_browser path_exists_def)

lemma main_startup_browser: "main_startup (e\<lparr>browser_result := b\<rparr>) args = main_startup e args"
  unfolding main_startup_def startup_calls_browser by simp

subsection \<open>The example runs\<close>

lemma fap_typical:
  "find_available_port env_typical 8000 25 \<lparr>calls = 0, trace = [Chdir ''/srv/site'']\<rparr> =
     (Inr 8002, \<lparr>calls = 3, trace = [Chdir ''/srv/site'', Probe 8000, Probe 8001, Probe 8002]\<rparr>)"
proof -
  let ?s = "\<lparr>calls = 0, trace = [Chdir ''/srv/site'']\<rparr>"
  have i: "(2::nat) < nat 25" by simp
  have before: "\<forall>j<2. connect_succeeds env_typical (calls ?s + j) (8000 + int j)"
    by (simp add: connect_succeeds_def connect_result_def env_typical_def env_ports_def)
  have at: "connect_fails env_typical (calls ?s + 2) (8000 + int 2)"
    by (simp add: connect_fails_def connect_result_def env_typical_def env_ports_def)
  from find_available_port_free [OF i before at] show ?thesis
    by (simp add: upto_8000_8002)
qed

lemma wul_typical:
  "wait_until_listening env_typical 8002 40 150 \<lparr>calls = 3, trace = tr\<rparr> =
     (Inr (), \<lparr>calls = 6, trace = tr @ [Probe 8002, Sleep 150, Probe 8002, Sleep 150, Probe 8002]\<rparr>)"
proof -
  let ?s = "\<lparr>calls = 3, trace = tr\<rparr>"
  have i: "(2::nat) < nat 40" by simp
  have before: "\<forall>j<2. connect_fails env_typical (calls ?s + j) 8002"
    by (simp add: connect_fails_def connect_result_def env_typical_def env_ports_def)
  have at: "connect_succeeds env_typical (calls ?s + 2) 8002"
    by (simp add: connect_succeeds_def connect_result_def env_typical_def env_ports_def)
  from wul_loop_ok [OF i before at, of 150] show ?thesis
    by (simp add: wait_until_listening_def numeral_2_eq_2)
qed

lemma env_typical_fs:
  "resolve env_typical p = p"
  "node_at env_typical ''/srv/site'' = Some Directory"
  "chdir_denied env_typical p = False"
  "bind_errno env_typical q = 0"
  "browser_result env_typical u = Inr False"
  by (simp_all add: env_typical_def env_ports_def)

lemma main_startup_typical:
  "main_startup env_typical (site_args\<lparr>arg_entry := E\<rparr>) =
     (Inr (8002, ''http://localhost:8002/'' @ lstrip_slash E),
      typical_started (''http://localhost:8002/'' @ lstrip_slash E))"
  by (simp add: main_startup_def site_args_def env_typical_fs path_exists_def chdir_def init_st_def
      emit_def fap_typical create_server_def build_handler_def print_banner_def wul_typical
      str_int_8002 typical_started_def Let_def)

lemma env_never_ready_fs:
  "resolve env_never_ready p = p"
  "node_at env_never_ready ''/srv/site'' = Some Directory"
  "chdir_denied env_never_ready p = False"
  "bind_errno env_never_ready q = 0"
  by (simp_all add: env_never_ready_def env_ports_def)

lemma fap_never_ready:
  "find_available_port env_never_ready 8000 25 \<lparr>calls = 0, trace = [Chdir ''/srv/site'']\<rparr> =
     (Inr 8000, \<lparr>calls = 1, trace = [Chdir ''/srv/site'', Probe 8000]\<rparr>)"
proof -
  let ?s = "\<lparr>calls = 0, trace = [Chdir ''/srv/site'']\<rparr>"
  have i: "(0::nat) < nat 25" by simp
  have before: "\<forall>j<0. connect_succeeds env_never_ready (calls ?s + j) (8000 + int j)" by simp
  have at: "connect_fails env_never_ready (calls ?s + 0) (8000 + int 0)"
    by (simp add: connect_fails_def connect_result_def env_never_ready_def env_ports_def)
  from find_available_port_free [OF i before at] show ?thesis by simp
qed

lemma wul_never_ready:
  "wait_until_listening env_never_ready 8000 40 150 \<lparr>calls = Suc 0, trace = tr\<rparr> =
     (Inl (RuntimeError msg_timeout),
      \<lparr>calls = 41, trace = tr @ concat (replicate 40 [Probe 8000, Sleep 150])\<rparr>)"
proof -
  let ?s = "\<lparr>calls = Suc 0, trace = tr\<rparr>"
  have "\<forall>j<40. connect_fails env_never_ready (calls ?s + j) 8000"
    by (simp add: connect_fails_def connect_result_def env_never_ready_def env_ports_def)
  from wul_loop_timeout [OF this, of 150] show ?thesis
    by (simp add: wait_until_listening_def)
qed

lemma main_startup_never_ready:
  "main_startup env_never_ready site_args = (Inl (RuntimeError msg_timeout), never_ready_stalled)"
  by (simp add: main_startup_def site_args_def env_never_ready_fs path_exists_def chdir_def init_st_def
      emit_def fap_never_ready create_server_def build_handler_def print_banner_def wul_never_ready
      str_int_8000 never_ready_stalled_def Let_def)

subsection \<open>The launcher\<close>

text \<open>
  Claim C2. For every configuration whose resolved root does not exist, the launcher
  exits with status 1 through \<open>SystemExit\<close> carrying a message that names the root, and
  it has performed no effect at all by then: no probe, no server socket, no bind.
\<close>

theorem missing_root_exits_before_any_socket:
  assumes "\<not> path_exists e (resolve e (arg_root args))"
  shows "main e args fuel =
           (Raised (SystemExit (msg_no_root @ resolve e (arg_root args))), init_st)
       \<and> exit_status (fst (main e args fuel)) = Some 1
       \<and> trace (snd (main e args fuel)) = []"
  using assms by (simp add: main_def main_startup_def exit_status_def init_st_def)

theorem missing_root_exits_before_any_socket_witness:
  "\<not> path_exists env_typical (resolve env_typical (arg_root missing_root_args))
   \<and> main env_typical missing_root_args 5 =
       (Raised (SystemExit (msg_no_root @ ''/srv/nothing'')), init_st)
   \<and> exit_status (fst (main env_typical missing_root_args 5)) = Some 1
   \<and> trace (snd (main env_typical missing_root_args 5)) = []"
proof -
  have h: "\<not> path_exists env_typical (resolve env_typical (arg_root missing_root_args))"
    by (simp add: path_exists_def env_typical_def env_ports_def missing_root_args_def site_args_def)
  have r: "resolve env_typical (arg_root missing_root_args) = ''/srv/nothing''"
    by (simp add: env_typical_def env_ports_def missing_root_args_def site_args_def)
  from missing_root_exits_before_any_socket [OF h, of 5] h show ?thesis
    unfolding r by blast
qed

text \<open>
  Claim C10. The root check asks for existence only: when the resolved root is a
  regular file the check passes, the launcher goes on to \<open>os.chdir\<close>, and the
  \<open>NotADirectoryError\<close> raised there leaves \<open>main\<close> unhandled; the exit is not the
  \<open>SystemExit\<close> of the missing-root message.
\<close>

theorem file_root_passes_check_and_chdir_raises:
  assumes "node_at e (resolve e (arg_root args)) = Some File"
  shows "path_exists e (resolve e (arg_root args))
       \<and> main e args fuel = (Raised NotADirectoryError, init_st)
       \<and> (\<forall>m. fst (main e args fuel) \<noteq> Raised (SystemExit m))
       \<and> exit_status (fst (main e args fuel)) = Some 1"
  using assms by (simp add: main_def main_startup_def path_exists_def chdir_def exit_status_def)

theorem file_root_passes_check_and_chdir_raises_witness:
  "node_at env_typical (resolve env_typical (arg_root file_root_args)) = Some File
   \<and> path_exists env_typical (resolve env_typical (arg_root file_root_args))
   \<and> main env_typical file_root_args 5 = (Raised NotADirectoryError, init_st)"
proof -
  have h: "node_at env_typical (resolve env_typical (arg_root file_root_args)) = Some File"
    by (simp add: env_typical_def env_ports_def file_root_args_def site_args_def)
  from file_root_passes_check_and_chdir_raises [OF h, of 5] h show ?thesis by blast
qed

text \<open>
  Claim C7. Whenever the startup succeeds with port \<open>Q\<close>, the URL is exactly
  \<open>http://localhost:\<close>, the decimal \<open>Q\<close>, a slash, and the entry page without its leading
  slashes; with the default entry it ends in \<open>/index.html\<close>. \<open>Q\<close> is the port that
  \<open>find_available_port\<close> returned and the server was created on, the URL is the one
  printed in the banner, and it is the one and only URL handed to the browser.
\<close>

theorem url_is_localhost_port_entry:
  assumes "main_startup e args = (Inr (port, url), s)"
  shows "url = ''http://localhost:'' @ str_int port @ ''/'' @
                 dropWhile (\<lambda>c. c = CHR ''/'') (arg_entry args)
       \<and> (arg_entry args = ''index.html'' \<longrightarrow>
            url = ''http://localhost:'' @ str_int port @ ''/index.html'')
       \<and> (\<exists>s1 s2. find_available_port e (arg_port args) 25 s1 = (Inr port, s2))
       \<and> ServerCreate port (build_handler (resolve e (arg_root args))) \<in> set (trace s)
       \<and> Print (msg_access @ url) \<in> set (trace s)
       \<and> BrowserOpen url \<in> set (trace (snd (main e args fuel)))
       \<and> (\<forall>u. BrowserOpen u \<in> set (trace (snd (main e args fuel))) \<longrightarrow> u = url)"
proof -
  from main_startup_Inr(1) [OF assms]
  have 1: "url = ''http://localhost:'' @ str_int port @ ''/'' @
                 dropWhile (\<lambda>c. c = CHR ''/'') (arg_entry args)"
    by (simp only: lstrip_slash_dropWhile)
  then have 2: "arg_entry args = ''index.html'' \<longrightarrow>
            url = ''http://localhost:'' @ str_int port @ ''/index.html''" by simp
  note 3 = main_startup_Inr(6) [OF assms]
  note 4 = main_startup_Inr(3) [OF assms]
  note 5 = main_startup_Inr(5) [OF assms]
  have all: "list_all startup_event (trace s)" using assms by (rule main_startup_Inr)
  have nob: "BrowserOpen u \<notin> set (trace s)" for u
  proof
    assume "BrowserOpen u \<in> set (trace s)"
    with all have "startup_event (BrowserOpen u)" by (simp add: list_all_iff)
    then show False by (simp add: startup_event_def)
  qed
  from main_trace_after_startup [OF assms, of fuel] obtain rest where
    rest: "trace (snd (main e args fuel)) = trace s @ BrowserOpen url # rest"
      "\<forall>u. BrowserOpen u \<notin> set rest" by blast
  have 6: "BrowserOpen url \<in> set (trace (snd (main e args fuel)))"
    unfolding rest(1) by simp
  have 7: "\<forall>u. BrowserOpen u \<in> set (trace (snd (main e args fuel))) \<longrightarrow> u = url"
    unfolding rest(1) using rest(2) nob by auto
  from 1 2 3 4 5 6 7 show ?thesis by blast
qed

theorem url_is_localhost_port_entry_witness:
  "main_startup env_typical slash_entry_args =
      (Inr (8002, ''http://localhost:8002/docs/a.html''),
       typical_started ''http://localhost:8002/docs/a.html'')
   \<and> ''http://localhost:8002/docs/a.html'' =
        ''http://localhost:'' @ str_int 8002 @ ''/'' @
          dropWhile (\<lambda>c. c = CHR ''/'') (arg_entry slash_entry_args)
   \<and> BrowserOpen ''http://localhost:8002/docs/a.html''
        \<in> set (trace (snd (main env_typical slash_entry_args 3)))"
proof -
  have st: "main_startup env_typical slash_entry_args =
      (Inr (8002, ''http://localhost:8002/docs/a.html''),
       typical_started ''http://localhost:8002/docs/a.html'')"
    using main_startup_typical [of "''//docs/a.html''"] by (simp add: slash_entry_args_def)
  from url_is_localhost_port_entry [OF st, of 3] st show ?thesis by blast
qed

text \<open>
  Claim C9 on the code. The claim holds when \<open>webbrowser.open\<close> returns, with either
  answer: the hint line is printed and the liveness loop is entered. When the launch
  fails by raising, as in \<open>env_browser_raises\<close>, the exception leaves \<open>main\<close> from line 82,
  which is outside the \<open>try\<close> block: the hint of line 83 is never printed, the liveness
  loop is never entered, the process exits with status 1, and the server that was
  started is neither shut down nor closed.
\<close>

theorem browser_launch_exception_is_fatal:
  "main env_browser_raises site_args fuel =
     (Raised ValueError,
      \<lparr>calls = 6,
       trace = trace (typical_started ''http://localhost:8002/index.html'') @
          [BrowserOpen ''http://localhost:8002/index.html'']\<rparr>)
   \<and> fst (main env_browser_raises site_args fuel) \<noteq> Serving
   \<and> exit_status (fst (main env_browser_raises site_args fuel)) = Some 1
   \<and> Print msg_browser \<notin> set (trace (snd (main env_browser_raises site_args fuel)))
   \<and> ThreadStart \<in> set (trace (snd (main env_browser_raises site_args fuel)))
   \<and> ServerShutdown \<notin> set (trace (snd (main env_browser_raises site_args fuel)))
   \<and> ServerClose \<notin> set (trace (snd (main env_browser_raises site_args fuel)))"
proof -
  let ?url = "''http://localhost:8002/index.html''"
  have st: "main_startup env_browser_raises site_args = (Inr (8002, ?url), typical_started ?url)"
    unfolding env_browser_raises_def main_startup_browser
    using main_startup_typical [of "''index.html''"] by (simp add: site_args_def)
  have br: "browser_result env_browser_raises ?url = Inl ValueError"
    by (simp add: env_browser_raises_def)
  have m: "main env_browser_raises site_args fuel =
     (Raised ValueError,
      \<lparr>calls = 6, trace = trace (typical_started ?url) @ [BrowserOpen ?url]\<rparr>)"
    unfolding main_browser_raised [OF st br] by (simp add: typical_started_def)
  have len: "length msg_browser = 75" "length msg_howto_close = 47"
    "length (msg_static_dir @ ''/srv/site'') = 24" "length (msg_access @ ?url) = 47"
    by (simp_all add: msg_browser_def msg_howto_close_def msg_static_dir_def msg_access_def)
  have ne: "msg_browser \<noteq> replicate 60 CHR ''-''" "msg_browser \<noteq> msg_howto_close"
    "msg_browser \<noteq> msg_static_dir @ ''/srv/site''" "msg_browser \<noteq> msg_access @ ?url"
  proof -
    show "msg_browser \<noteq> replicate 60 CHR ''-''"
    proof
      assume "msg_browser = replicate 60 CHR ''-''"
      then have "length msg_browser = length (replicate 60 CHR ''-'')" by (rule arg_cong)
      with len(1) show False by simp
    qed
    show "msg_browser \<noteq> msg_howto_close"
    proof
      assume "msg_browser = msg_howto_close"
      then have "length msg_browser = length msg_howto_close" by (rule arg_cong)
      with len(1,2) show False by simp
    qed
    show "msg_browser \<noteq> msg_static_dir @ ''/srv/site''"
    proof
      assume "msg_browser = msg_static_dir @ ''/srv/site''"
      then have "length msg_browser = length (msg_static_dir @ ''/srv/site'')" by (rule arg_cong)
      with len(1,3) show False by simp
    qed
    show "msg_browser \<noteq> msg_access @ ?url"
    proof
      assume "msg_browser = msg_access @ ?url"
      then have "length msg_browser = length (msg_access @ ?url)" by (rule arg_cong)
      with len(1,4) show False by simp
    qed
  qed
  have tr: "Print msg_browser \<notin> set (trace (typical_started ?url) @ [BrowserOpen ?url])"
    "ThreadStart \<in> set (trace (typical_started ?url) @ [BrowserOpen ?url])"
    "ServerShutdown \<notin> set (trace (typical_started ?url) @ [BrowserOpen ?url])"
    "ServerClose \<notin> set (trace (typical_started ?url) @ [BrowserOpen ?url])"
    using ne by (simp_all add: typical_started_def)
  show ?thesis
    unfolding m using tr by (simp add: exit_status_def)
qed

text \<open>
  Claim C5. When the interrupt arrives in the liveness loop, which the launcher enters
  once the browser call has returned, after any number of completed sleeps, \<open>main\<close> prints the interrupt notice, stops the serve loop, closes the
  listening socket, joins the thread with a timeout of 2000 ms, prints the closing
  message and returns, so the process exits with status 0.
\<close>

theorem interrupt_while_serving_shuts_down:
  assumes "main_startup e args = (Inr (port, url), s)"
    and "browser_result e url = Inr opened"
    and "\<forall>j<n. wait_event e j = Slept" and "wait_event e n = Interrupt" and "n < fuel"
  shows "main e args fuel =
           (Returned,
            s\<lparr>trace := trace s @ [BrowserOpen url, Print msg_browser] @ replicate n (Sleep 500) @
                 [Print msg_interrupt, ServerShutdown, ServerClose, ThreadJoin 2000, Print msg_bye]\<rparr>)
       \<and> exit_status (fst (main e args fuel)) = Some 0"
proof -
  let ?s8 = "s\<lparr>trace := trace s @ [BrowserOpen url, Print msg_browser]\<rparr>"
  have a: "\<forall>j<n. wait_event e (0 + j) = Slept" using assms(3) by simp
  have b: "n \<le> fuel" using assms(5) by simp
  from assms(5) obtain f where f: "fuel - n = Suc f" by (cases "fuel - n") auto
  have "liveness_loop e fuel 0 ?s8 =
      liveness_loop e (fuel - n) (0 + n) (?s8\<lparr>trace := trace ?s8 @ replicate n (Sleep 500)\<rparr>)"
    using a b by (rule liveness_loop_slept)
  also have "\<dots> = (Interrupted, ?s8\<lparr>trace := trace ?s8 @ replicate n (Sleep 500)\<rparr>)"
    using assms(4) by (simp add: f)
  finally have l: "liveness_loop e fuel 0 ?s8 =
      (Interrupted, ?s8\<lparr>trace := trace ?s8 @ replicate n (Sleep 500)\<rparr>)" .
  show ?thesis
    by (simp add: main_after_startup [OF assms(1,2)] l main_finally_def emit_def exit_status_def)
qed

theorem interrupt_while_serving_shuts_down_witness:
  "main env_typical site_args 10 =
      (Returned,
       \<lparr>calls = 6,
        trace = trace (typical_started ''http://localhost:8002/index.html'') @
           [BrowserOpen ''http://localhost:8002/index.html'', Print msg_browser,
            Sleep 500, Sleep 500,
            Print msg_interrupt, ServerShutdown, ServerClose, ThreadJoin 2000, Print msg_bye]\<rparr>)
   \<and> exit_status (fst (main env_typical site_args 10)) = Some 0"
proof -
  have st: "main_startup env_typical site_args =
      (Inr (8002, ''http://localhost:8002/index.html''),
       typical_started ''http://localhost:8002/index.html'')"
    using main_startup_typical [of "''index.html''"] by (simp add: site_args_def)
  have sl: "\<forall>j<2. wait_event env_typical j = Slept"
    by (simp add: env_typical_def env_ports_def)
  have it: "wait_event env_typical 2 = Interrupt"
    by (simp add: env_typical_def env_ports_def)
  have fu: "(2::nat) < 10" by simp
  have br: "browser_result env_typical ''http://localhost:8002/index.html'' = Inr False"
    by (rule env_typical_fs)
  from interrupt_while_serving_shuts_down [OF st br sl it fu] show ?thesis
    by (simp add: typical_started_def numeral_2_eq_2 exit_status_def)
qed

text \<open>
  Claim C4 on the code. In \<open>env_never_ready\<close> port 8000 is free, the server is created on
  it, and all 40 readiness probes fail: the timeout error leaves \<open>main\<close> from line 81,
  outside the \<open>try\<close> block, so the server that was created is neither shut down nor
  closed when the run ends.
\<close>

theorem startup_timeout_leaves_server_open:
  "main env_never_ready site_args fuel = (Raised (RuntimeError msg_timeout), never_ready_stalled)
   \<and> ServerCreate 8000 \<lparr>directory = ''/srv/site''\<rparr> \<in> set (trace never_ready_stalled)
   \<and> ServerClose \<notin> set (trace never_ready_stalled)
   \<and> ServerShutdown \<notin> set (trace never_ready_stalled)"
  by (simp add: main_def main_startup_never_ready) (simp add: never_ready_stalled_def)

end
